theory Spec2Isabelle
  imports Main "HOL-Library.Sublist"
begin

section \<open>Python values used by download\_packages.py\<close>

text \<open>
  The script is a batch driver around the \<^verbatim>\<open>git\<close> command line. Everything outside the
  script (the URL parser of the standard library, the file system, the shell) is a
  parameter of the model, a \<open>platform\<close>; the script itself is translated function by
  function. Python strings are modelled as \<open>string\<close>.
\<close>

text \<open>
  The exceptions that leave a function of the script: \<^verbatim>\<open>sys.exit(n)\<close> raises
  \<open>SystemExit n\<close>; \<^verbatim>\<open>urlparse\<close> raises \<open>ValueError\<close> on a URL it rejects, and no function of
  the script catches it.
\<close>

datatype exn = ValueError | SystemExit int

text \<open>\<^verbatim>\<open>s.endswith(suf)\<close>\<close>

definition endswith :: "string \<Rightarrow> string \<Rightarrow> bool" where
  "endswith s suf = (length suf \<le> length s \<and> drop (length s - length suf) s = suf)"

text \<open>\<^verbatim>\<open>s.lstrip(chars)\<close> and \<^verbatim>\<open>s.strip(chars)\<close>: the characters of \<open>chars\<close> are removed from
  the left end, respectively from both ends.\<close>

definition lstrip_chars :: "string \<Rightarrow> string \<Rightarrow> string" where
  "lstrip_chars chars s = dropWhile (\<lambda>c. c \<in> set chars) s"

definition strip_chars :: "string \<Rightarrow> string \<Rightarrow> string" where
  "strip_chars chars s = rev (lstrip_chars chars (rev (lstrip_chars chars s)))"

text \<open>\<^verbatim>\<open>s.split(sep)\<close> for a separator of one character: the pieces between the
  separators, empty pieces included; the empty string gives one empty piece. The branch
  for an empty recursive result is there for totality only.\<close>

fun split_str :: "char \<Rightarrow> string \<Rightarrow> string list" where
  "split_str sep [] = [[]]"
| "split_str sep (c # cs) =
     (if c = sep then [] # split_str sep cs
      else (case split_str sep cs of
              [] \<Rightarrow> [[c]]
            | w # ws \<Rightarrow> (c # w) # ws))"

text \<open>\<^verbatim>\<open>s.strip()\<close>: ASCII white space is removed from both ends.\<close>

definition whitespace :: string where
  "whitespace = [CHR 0x09, CHR 0x0A, CHR 0x0B, CHR 0x0C, CHR 0x0D,
                 CHR 0x1C, CHR 0x1D, CHR 0x1E, CHR 0x1F, CHR 0x20]"

definition strip :: "string \<Rightarrow> string" where
  "strip s = strip_chars whitespace s"

text \<open>\<^verbatim>\<open>Path(d) / name\<close> rendered as a string, for a directory \<open>d\<close> without a trailing
  slash and a name without a slash: pathlib drops an empty or \<^verbatim>\<open>.\<close> component.\<close>

definition path_join :: "string \<Rightarrow> string \<Rightarrow> string" where
  "path_join d name = (if name = [] \<or> name = ''.'' then d else d @ ''/'' @ name)"

section \<open>The platform and the state of a run\<close>

text \<open>What \<^verbatim>\<open>run_command\<close> hands back: the object's \<^verbatim>\<open>returncode\<close> and the text of its
  output (\<^verbatim>\<open>stdout\<close>, read by the script only after a capturing call).\<close>

record result =
  returncode :: int
  stdout :: string

text \<open>
  The platform, over a type \<open>'w\<close> of worlds (file system, repositories, network):
  \<^item> \<open>urlparse_path u\<close> is \<^verbatim>\<open>urlparse(u).path\<close>, or \<open>None\<close> where \<^verbatim>\<open>urlparse\<close> raises
    \<^verbatim>\<open>ValueError\<close>;
  \<^item> \<open>path_exists p w\<close> is \<^verbatim>\<open>Path(p).exists()\<close>;
  \<^item> \<open>mkdir p w\<close> is the world after \<^verbatim>\<open>Path(p).mkdir(exist_ok=True)\<close>;
  \<^item> \<open>shell cwd command w\<close> runs a command line in a directory and gives its result and
    the world it leaves.
  The operating-system calls are taken to return; an exception of theirs is outside the
  model.
\<close>

record 'w platform =
  urlparse_path :: "string \<Rightarrow> string option"
  path_exists :: "string \<Rightarrow> 'w \<Rightarrow> bool"
  mkdir :: "string \<Rightarrow> 'w \<Rightarrow> 'w"
  shell :: "string \<Rightarrow> string \<Rightarrow> 'w \<Rightarrow> result \<times> 'w"

text \<open>The lines the script prints, one constructor for each \<^verbatim>\<open>print\<close> (or block of
  unconditional consecutive ones), carrying the values it interpolates.\<close>

datatype message =
    CommandOutput string
  | ErrRunning string
  | Header nat nat string string string
  | RepoExists string
  | Fetching
  | WarnFetchFailed string
  | Cloning string
  | ErrCloneFailed string
  | Cloned string
  | CheckingOutTag string
  | FetchingTags
  | WarnFetchTagsFailed string
  | ErrCheckoutFailed string string
  | TryingAlternatives
  | TryingVPrefix string
  | ErrCheckoutFailedBoth string string string
  | CheckedOutTag string
  | CheckedOutCommit string
  | WarnUnverified string
  | Completed string
  | ErrNotFound
  | ErrInvalidJSON
  | ErrReading
  | ErrNoPackages
  | Found nat
  | WarnNoURL nat
  | WarnNoVersions nat
  | WarnNoVersion nat
  | Summary nat nat nat
  | WarnFailed nat
  | AllSucceeded

text \<open>What a run does, in order: \<open>Ran cwd command rc\<close> is an external command, with the
  directory it ran in and its return code; \<open>Print m\<close> is a line on standard output.\<close>

datatype event = Ran string string int | Print message

record 'w state =
  world :: 'w
  trace :: "event list"

definition say :: "message \<Rightarrow> 'w state \<Rightarrow> 'w state" where
  "say m st = st\<lparr>trace := trace st @ [Print m]\<rparr>"

section \<open>run\_command\<close>

text \<open>
  Lines 16-61. With \<^verbatim>\<open>show_output\<close> the command's output is echoed and the process object
  is returned whatever its return code. Otherwise the output is captured; with \<^verbatim>\<open>check\<close>
  a nonzero return code raises \<^verbatim>\<open>CalledProcessError\<close>, which is caught, reported and
  returned (it carries \<^verbatim>\<open>returncode\<close> and \<^verbatim>\<open>stdout\<close> too).
\<close>

definition run_command ::
  "'w platform \<Rightarrow> string \<Rightarrow> string \<Rightarrow> bool \<Rightarrow> bool \<Rightarrow> 'w state \<Rightarrow> result \<times> 'w state" where
  "run_command P command cwd check show_output st =
     (let (res, w) = shell P cwd command (world st);
          st1 = st\<lparr>world := w, trace := trace st @ [Ran cwd command (returncode res)]\<rparr>
      in if show_output then (res, say (CommandOutput (stdout res)) st1)
         else if check \<and> returncode res \<noteq> 0 then (res, say (ErrRunning command) st1)
         else (res, st1))"

section \<open>get\_repo\_name\_from\_url\<close>

text \<open>Lines 64-75.\<close>

definition get_repo_name_from_url :: "'w platform \<Rightarrow> string \<Rightarrow> exn + string" where
  "get_repo_name_from_url P url =
     (let url1 = (if endswith url ''.git'' then take (length url - 4) url else url)
      in case urlparse_path P url1 of
           None \<Rightarrow> Inl ValueError
         | Some path \<Rightarrow>
             (let path_parts = split_str CHR ''/'' (strip_chars ''/'' path)
              in Inr (if path_parts \<noteq> [] then last path_parts else ''unknown'')))"

section \<open>clone\_and\_checkout\_package\<close>

text \<open>Lines 94-110: update an existing working copy, or clone. The flag returned is
  False where the source returns False (the clone failed).\<close>

definition update_or_clone ::
  "'w platform \<Rightarrow> string \<Rightarrow> string \<Rightarrow> string \<Rightarrow> string \<Rightarrow> 'w state \<Rightarrow> bool \<times> 'w state" where
  "update_or_clone P url output_dir repo_name repo_path st =
     (if path_exists P repo_path (world st) then
        (let st1 = say (RepoExists repo_name) st;
             st2 = say Fetching st1;
             (res, st3) = run_command P ''git fetch --all --progress'' repo_path False True st2
         in if returncode res \<noteq> 0 then (True, say (WarnFetchFailed repo_name) st3)
            else (True, st3))
      else
        (let st1 = say (Cloning repo_name) st;
             (res, st2) = run_command P (''git clone --progress '' @ url @ '' '' @ repo_name)
                             output_dir True True st1
         in if returncode res \<noteq> 0 then (False, say (ErrCloneFailed repo_name) st2)
            else (True, say (Cloned repo_name) st2)))"

text \<open>Lines 112-119: the tags are fetched before the checkout.\<close>

definition fetch_tags ::
  "'w platform \<Rightarrow> string \<Rightarrow> string \<Rightarrow> string \<Rightarrow> 'w state \<Rightarrow> 'w state" where
  "fetch_tags P version repo_name repo_path st =
     (let st1 = say (CheckingOutTag version) st;
          st2 = say FetchingTags st1;
          (res, st3) = run_command P ''git fetch --tags'' repo_path False True st2
      in if returncode res \<noteq> 0 then say (WarnFetchTagsFailed repo_name) st3 else st3)"

text \<open>Lines 121-138: the checkout, with its fallbacks. The flag returned is False where
  the source returns False (no variant could be checked out).\<close>

definition checkout_version ::
  "'w platform \<Rightarrow> string \<Rightarrow> string \<Rightarrow> string \<Rightarrow> 'w state \<Rightarrow> bool \<times> 'w state" where
  "checkout_version P version repo_name repo_path st =
     (let (res, st1) = run_command P (''git checkout '' @ version) repo_path True True st
      in if returncode res \<noteq> 0 then
           (let st2 = say (ErrCheckoutFailed version repo_name) st1;
                st3 = say TryingAlternatives st2;
                (res, st4) = run_command P (''git checkout tags/'' @ version) repo_path True True st3
            in if returncode res \<noteq> 0 then
                 (let v_version = ''v'' @ version;
                      st5 = say (TryingVPrefix v_version) st4;
                      (res, st6) = run_command P (''git checkout '' @ v_version) repo_path True True st5
                  in if returncode res \<noteq> 0 then
                       (let (res, st7) = run_command P (''git checkout tags/'' @ v_version)
                                            repo_path True True st6
                        in if returncode res \<noteq> 0 then
                             (False, say (ErrCheckoutFailedBoth version v_version repo_name) st7)
                           else (True, st7))
                     else (True, st6))
               else (True, st4))
         else (True, st1))"

text \<open>Lines 140-152: the checkout is reported, by tag if the commit has one, else by the
  first eight characters of the commit id, else as unverified.\<close>

definition verify_checkout :: "'w platform \<Rightarrow> string \<Rightarrow> string \<Rightarrow> 'w state \<Rightarrow> 'w state" where
  "verify_checkout P repo_name repo_path st =
     (let (res, st1) = run_command P ''git describe --tags --exact-match'' repo_path False False st
      in if returncode res = 0 then
           (let current_tag = strip (stdout res) in say (CheckedOutTag current_tag) st1)
         else
           (let (res, st2) = run_command P ''git rev-parse HEAD'' repo_path False False st1
            in if returncode res = 0 then
                 (let current_commit = take 8 (strip (stdout res))
                  in say (CheckedOutCommit current_commit) st2)
               else say (WarnUnverified repo_name) st2))"

text \<open>Lines 78-155. The result is \<open>Inr\<close> of the boolean returned, or \<open>Inl\<close> of the
  exception that \<^verbatim>\<open>get_repo_name_from_url\<close> let through.\<close>

definition clone_and_checkout_package ::
  "'w platform \<Rightarrow> string \<Rightarrow> string \<Rightarrow> string \<Rightarrow> nat \<Rightarrow> nat \<Rightarrow> 'w state \<Rightarrow> (exn + bool) \<times> 'w state" where
  "clone_and_checkout_package P url version output_dir current_package total_packages st =
     (let st0 = st\<lparr>world := mkdir P output_dir (world st)\<rparr>
      in case get_repo_name_from_url P url of
           Inl e \<Rightarrow> (Inl e, st0)
         | Inr repo_name \<Rightarrow>
             (let repo_path = path_join output_dir repo_name;
                  st1 = say (Header current_package total_packages repo_name url version) st0;
                  (cont, st2) = update_or_clone P url output_dir repo_name repo_path st1
              in if \<not> cont then (Inr False, st2)
                 else
                   (let st3 = fetch_tags P version repo_name repo_path st2;
                        (ok, st4) = checkout_version P version repo_name repo_path st3
                    in if \<not> ok then (Inr False, st4)
                       else
                         (let st5 = verify_checkout P repo_name repo_path st4
                          in (Inr True, say (Completed repo_name) st5)))))"

section \<open>main\<close>

text \<open>
  The manifest, \<^verbatim>\<open>collection.json\<close>, as the script reads it: an object with a list
  \<^verbatim>\<open>packages\<close> of objects with a string \<^verbatim>\<open>url\<close> and a list \<^verbatim>\<open>versions\<close> of objects with a
  string \<^verbatim>\<open>version\<close>. A key may be absent (or \<^verbatim>\<open>null\<close>): \<open>None\<close>. Values of other JSON types
  are outside the model.
\<close>

record version_info =
  vi_version :: "string option"

record package =
  pkg_url :: "string option"
  pkg_versions :: "version_info list option"

record collection =
  col_packages :: "package list option"

text \<open>What lines 160-174 find: no file, a file that cannot be read, a file that is not
  JSON, or the parsed document.\<close>

datatype manifest_file = NotFound | Unreadable | InvalidJSON | Loaded collection

text \<open>Lines 190-218, the loop over the packages: \<open>i\<close> is the index that \<^verbatim>\<open>enumerate\<close>
  gives, the pair is \<^verbatim>\<open>(successful, failed)\<close>. An exception ends the loop.\<close>

fun process_packages ::
  "'w platform \<Rightarrow> nat \<Rightarrow> nat \<Rightarrow> package list \<Rightarrow> nat \<times> nat \<Rightarrow> 'w state
     \<Rightarrow> (exn + nat \<times> nat) \<times> 'w state" where
  "process_packages P total_packages i [] (successful, failed) st = (Inr (successful, failed), st)"
| "process_packages P total_packages i (package # rest) (successful, failed) st =
     (case pkg_url package of
        None \<Rightarrow> process_packages P total_packages (i + 1) rest (successful, failed + 1) (say (WarnNoURL i) st)
      | Some url \<Rightarrow>
          if url = [] then
            process_packages P total_packages (i + 1) rest (successful, failed + 1) (say (WarnNoURL i) st)
          else
            (case (case pkg_versions package of None \<Rightarrow> [] | Some vs \<Rightarrow> vs) of
               [] \<Rightarrow>
                 process_packages P total_packages (i + 1) rest (successful, failed + 1)
                   (say (WarnNoVersions i) st)
             | version_info # _ \<Rightarrow>
                 (case vi_version version_info of
                    None \<Rightarrow>
                      process_packages P total_packages (i + 1) rest (successful, failed + 1)
                        (say (WarnNoVersion i) st)
                  | Some version \<Rightarrow>
                      if version = [] then
                        process_packages P total_packages (i + 1) rest (successful, failed + 1)
                          (say (WarnNoVersion i) st)
                      else
                        (case clone_and_checkout_package P url version ''packages'' i total_packages st of
                           (Inl e, st1) \<Rightarrow> (Inl e, st1)
                         | (Inr ok, st1) \<Rightarrow>
                             if ok then
                               process_packages P total_packages (i + 1) rest (successful + 1, failed) st1
                             else
                               process_packages P total_packages (i + 1) rest (successful, failed + 1) st1))))"

text \<open>Lines 158-233. \<open>Inr ()\<close> is the normal return.\<close>

definition main :: "'w platform \<Rightarrow> manifest_file \<Rightarrow> 'w state \<Rightarrow> (exn + unit) \<times> 'w state" where
  "main P file st =
     (case file of
        NotFound \<Rightarrow> (Inl (SystemExit 1), say ErrNotFound st)
      | InvalidJSON \<Rightarrow> (Inl (SystemExit 1), say ErrInvalidJSON st)
      | Unreadable \<Rightarrow> (Inl (SystemExit 1), say ErrReading st)
      | Loaded data \<Rightarrow>
          (let packages = (case col_packages data of None \<Rightarrow> [] | Some ps \<Rightarrow> ps)
           in if packages = [] then (Inl (SystemExit 1), say ErrNoPackages st)
              else
                (case process_packages P (length packages) 1 packages (0, 0)
                        (say (Found (length packages)) st) of
                   (Inl e, st1) \<Rightarrow> (Inl e, st1)
                 | (Inr (successful, failed), st1) \<Rightarrow>
                     (let st2 = say (Summary (length packages) successful failed) st1
                      in if failed > 0 then (Inl (SystemExit 1), say (WarnFailed failed) st2)
                         else (Inr (), say AllSucceeded st2)))))"

text \<open>The exit status of the process: 0 after a normal return, the argument of
  \<^verbatim>\<open>sys.exit\<close>, and 1 when the interpreter ends on an uncaught exception.\<close>

fun exit_status :: "exn + unit \<Rightarrow> int" where
  "exit_status (Inr _) = 0"
| "exit_status (Inl (SystemExit n)) = n"
| "exit_status (Inl ValueError) = 1"

section \<open>The URL parser of the standard library\<close>

text \<open>
  \<^verbatim>\<open>urllib.parse.urlparse\<close> is not part of the repository. The general results below hold
  for every platform, whatever its parser; this model of the path component, after
  CPython 3.11 (\<^verbatim>\<open>urlsplit\<close>, \<^verbatim>\<open>_splitnetloc\<close>, \<^verbatim>\<open>_splitparams\<close>), gives the concrete
  scenarios a parser. The argument \<open>netloc_valid\<close> stands for the two checks of the network
  location that are not modelled (\<^verbatim>\<open>_check_bracketed_netloc\<close> on a bracketed host,
  \<^verbatim>\<open>_checknetloc\<close> on a non-ASCII one); they raise \<^verbatim>\<open>ValueError\<close> as well. \<open>None\<close> is
  \<^verbatim>\<open>ValueError\<close>.
\<close>

definition ascii_letters :: string where
  "ascii_letters = ''abcdefghijklmnopqrstuvwxyzABCDEFGHIJKLMNOPQRSTUVWXYZ''"

definition scheme_chars :: string where
  "scheme_chars = ascii_letters @ ''0123456789+-.''"

definition uses_params :: "string list" where
  "uses_params = ['''', ''ftp'', ''hdl'', ''prospero'', ''http'', ''imap'', ''https'', ''shttp'',
                  ''rtsp'', ''rtsps'', ''rtspu'', ''sip'', ''sips'', ''mms'', ''sftp'', ''tel'']"

definition c0_control_or_space :: string where
  "c0_control_or_space = map char_of [0 ..< (33::nat)]"

definition lower :: "string \<Rightarrow> string" where
  "lower s = map (\<lambda>c. let n = (of_char c :: nat)
                       in if 65 \<le> n \<and> n \<le> 90 then char_of (n + 32) else c) s"

text \<open>The first component of \<^verbatim>\<open>_splitparams(url)\<close>, for a \<open>url\<close> that contains a semicolon:
  parameters are cut from the last segment only.\<close>

definition splitparams :: "string \<Rightarrow> string" where
  "splitparams url =
     (if CHR ''/'' \<in> set url then
        (let k = length url - length (takeWhile (\<lambda>c. c \<noteq> CHR ''/'') (rev url)) - 1;
             tail = drop k url
         in if CHR '';'' \<in> set tail then take k url @ takeWhile (\<lambda>c. c \<noteq> CHR '';'') tail
            else url)
      else takeWhile (\<lambda>c. c \<noteq> CHR '';'') url)"

text \<open>The path left of what follows scheme and network location: fragment, query and
  (for the schemes that have them) parameters are cut off.\<close>

definition path_of_rest :: "string \<Rightarrow> string \<Rightarrow> string" where
  "path_of_rest scheme url =
     (let url1 = takeWhile (\<lambda>c. c \<noteq> CHR ''#'') url;
          url2 = takeWhile (\<lambda>c. c \<noteq> CHR ''?'') url1
      in if scheme \<in> set uses_params \<and> CHR '';'' \<in> set url2 then splitparams url2 else url2)"

definition urlparse_path_model :: "(string \<Rightarrow> bool) \<Rightarrow> string \<Rightarrow> string option" where
  "urlparse_path_model netloc_valid url =
     (let url1 = lstrip_chars c0_control_or_space url;
          url2 = filter (\<lambda>c. c \<notin> set [CHR 0x09, CHR 0x0D, CHR 0x0A]) url1;
          pre = takeWhile (\<lambda>c. c \<noteq> CHR '':'') url2;
          has_scheme = (CHR '':'' \<in> set url2
                        \<and> (case pre of [] \<Rightarrow> False | c # _ \<Rightarrow> c \<in> set ascii_letters)
                        \<and> list_all (\<lambda>c. c \<in> set scheme_chars) pre);
          scheme = (if has_scheme then lower pre else []);
          url3 = (if has_scheme then drop (length pre + 1) url2 else url2)
      in if take 2 url3 = ''//'' then
           (let netloc = takeWhile (\<lambda>c. c \<notin> set ''/?#'') (drop 2 url3);
                url4 = dropWhile (\<lambda>c. c \<notin> set ''/?#'') (drop 2 url3)
            in if (CHR ''['' \<in> set netloc \<and> CHR '']'' \<notin> set netloc)
                  \<or> (CHR '']'' \<in> set netloc \<and> CHR ''['' \<notin> set netloc)
               then None
               else if \<not> netloc_valid netloc then None
               else Some (path_of_rest scheme url4))
         else Some (path_of_rest scheme url3))"

section \<open>A version-control tool for the scenarios\<close>

text \<open>
  A small world to run the script in: the directories that exist, the tags of the
  repository, the tag checked out, and whether the network is reachable. Checking out a
  reference succeeds exactly when the reference names an existing tag, as \<open>t\<close> or as
  \<^verbatim>\<open>tags/\<close>\<open>t\<close>; clone and fetch succeed exactly when the network is reachable.
\<close>

record git_world =
  gw_dirs :: "string list"
  gw_tags :: "string list"
  gw_head :: "string option"
  gw_online :: bool

definition tag_named :: "string list \<Rightarrow> string \<Rightarrow> string option" where
  "tag_named tags ref =
     (if ref \<in> set tags then Some ref
      else if prefix ''tags/'' ref \<and> drop 5 ref \<in> set tags then Some (drop 5 ref)
      else None)"

definition git_done :: "int \<Rightarrow> string \<Rightarrow> result" where
  "git_done rc out = \<lparr>returncode = rc, stdout = out\<rparr>"

definition git_shell :: "string \<Rightarrow> string \<Rightarrow> git_world \<Rightarrow> result \<times> git_world" where
  "git_shell cwd command w =
     (if prefix ''git checkout '' command then
        (case tag_named (gw_tags w) (drop 13 command) of
           Some t \<Rightarrow> (git_done 0 [], w\<lparr>gw_head := Some t\<rparr>)
         | None \<Rightarrow> (git_done 1 ''error: pathspec did not match'', w))
      else if prefix ''git clone --progress '' command then
        (if gw_online w then
           (case rev (split_str CHR '' '' command) of
              [] \<Rightarrow> (git_done 0 [], w)
            | name # _ \<Rightarrow> (git_done 0 [], w\<lparr>gw_dirs := path_join cwd name # gw_dirs w\<rparr>))
         else (git_done 128 ''fatal: unable to access'', w))
      else if prefix ''git fetch '' command then
        (if gw_online w then (git_done 0 [], w) else (git_done 128 ''fatal: unable to access'', w))
      else if command = ''git describe --tags --exact-match'' then
        (case gw_head w of
           Some t \<Rightarrow> (git_done 0 (t @ [CHR 0x0A]), w)
         | None \<Rightarrow> (git_done 128 ''fatal: no tag exactly matches'', w))
      else (git_done 0 (''0123456789abcdef0123456789abcdef01234567'' @ [CHR 0x0A]), w))"

definition git_platform :: "git_world platform" where
  "git_platform =
     \<lparr>urlparse_path = urlparse_path_model (\<lambda>netloc. True),
      path_exists = (\<lambda>p w. p \<in> set (gw_dirs w)),
      mkdir = (\<lambda>p w. if p \<in> set (gw_dirs w) then w else w\<lparr>gw_dirs := p # gw_dirs w\<rparr>),
      shell = git_shell\<rparr>"

text \<open>The scenario of the specification: the manifest with one package,
  \<^verbatim>\<open>https://example.com/org/foo.git\<close> at version \<^verbatim>\<open>1.2.0\<close>, and a repository whose only tag
  is \<^verbatim>\<open>v1.2.0\<close>.\<close>

definition foo_manifest :: manifest_file where
  "foo_manifest =
     Loaded \<lparr>col_packages = Some
       [\<lparr>pkg_url = Some ''https://example.com/org/foo.git'',
         pkg_versions = Some [\<lparr>vi_version = Some ''1.2.0''\<rparr>]\<rparr>]\<rparr>"

definition foo_world :: "string list \<Rightarrow> bool \<Rightarrow> git_world state" where
  "foo_world dirs online =
     \<lparr>world = \<lparr>gw_dirs = dirs, gw_tags = [''v1.2.0''], gw_head = None, gw_online = online\<rparr>,
      trace = []\<rparr>"

section \<open>Reading a trace\<close>

text \<open>The events of a run from state \<open>st\<close> to state \<open>st'\<close>.\<close>

definition events_since :: "'w state \<Rightarrow> 'w state \<Rightarrow> event list" where
  "events_since st st' = drop (length (trace st)) (trace st')"

text \<open>The external commands of a trace with their return codes, in order.\<close>

fun commands :: "event list \<Rightarrow> (string \<times> int) list" where
  "commands [] = []"
| "commands (Ran cwd command rc # evs) = (command, rc) # commands evs"
| "commands (Print m # evs) = commands evs"

text \<open>The checkout attempts of a trace: no other command of the script starts with
  \<^verbatim>\<open>git checkout\<close>.\<close>

definition checkout_attempts :: "event list \<Rightarrow> (string \<times> int) list" where
  "checkout_attempts evs = filter (\<lambda>(command, rc). prefix ''git checkout '' command) (commands evs)"

text \<open>The variants of a version label in the order of the specification:
  \<^verbatim>\<open>{label}\<close>, \<^verbatim>\<open>tags/{label}\<close>, \<^verbatim>\<open>v{label}\<close>, \<^verbatim>\<open>tags/v{label}\<close>.\<close>

definition label_variants :: "string \<Rightarrow> string list" where
  "label_variants label = [label, ''tags/'' @ label, ''v'' @ label, ''tags/v'' @ label]"

text \<open>The summaries printed in a trace: total, successful, failed.\<close>

fun summaries :: "event list \<Rightarrow> (nat \<times> nat \<times> nat) list" where
  "summaries [] = []"
| "summaries (Print (Summary n s f) # evs) = (n, s, f) # summaries evs"
| "summaries (e # evs) = summaries evs"

text \<open>The message that reports a verified (or unverifiable) checkout of a repository.\<close>

fun verification_label :: "string \<Rightarrow> message \<Rightarrow> bool" where
  "verification_label repo_name (CheckedOutTag current_tag) = True"
| "verification_label repo_name (CheckedOutCommit current_commit) = True"
| "verification_label repo_name (WarnUnverified name) = (name = repo_name)"
| "verification_label repo_name m = False"

text \<open>A package entry that cannot be processed, in the words of the specification: the
  \<^verbatim>\<open>url\<close> is missing or empty, or the \<^verbatim>\<open>versions\<close> list is missing or empty, or its first
  descriptor has no (or an empty) \<^verbatim>\<open>version\<close>.\<close>

definition entry_incomplete :: "package \<Rightarrow> bool" where
  "entry_incomplete p =
     (pkg_url p = None \<or> pkg_url p = Some [] \<or>
      pkg_versions p = None \<or> pkg_versions p = Some [] \<or>
      (case pkg_versions p of
         Some (version_info # _) \<Rightarrow>
           vi_version version_info = None \<or> vi_version version_info = Some []
       | _ \<Rightarrow> False))"


section \<open>Traces and commands\<close>

lemma split_str_nonempty: "split_str sep s \<noteq> []"
  by (induction s) (auto split: list.splits)

lemma split_str_length: "length (split_str sep s) = Suc (length (filter (\<lambda>c. c = sep) s))"
  by (induction s) (auto split: list.splits)

lemma split_str_last: "last (split_str sep s) = rev (takeWhile (\<lambda>c. c \<noteq> sep) (rev s))"
proof (induction s)
  case Nil
  then show ?case by simp
next
  case (Cons c cs)
  show ?case
  proof (cases "c = sep")
    case True
    with Cons show ?thesis
      by (simp add: split_str_nonempty takeWhile_append)
  next
    case False
    obtain w ws where w: "split_str sep cs = w # ws"
      using split_str_nonempty [of sep cs] by (cases "split_str sep cs") auto
    show ?thesis
    proof (cases "ws = []")
      case True
      with w split_str_length [of sep cs] have "filter (\<lambda>c. c = sep) cs = []"
        by simp
      then have none: "\<forall>x \<in> set cs. x \<noteq> sep"
        by (simp add: filter_empty_conv)
      then have "takeWhile (\<lambda>c. c \<noteq> sep) (rev cs) = rev cs"
        by (simp add: takeWhile_eq_all_conv)
      with Cons.IH w True False none show ?thesis
        by (simp add: takeWhile_append)
    next
      case more: False
      with w split_str_length [of sep cs] have "filter (\<lambda>c. c = sep) cs \<noteq> []"
        by auto
      then have some: "sep \<in> set cs"
        by (auto simp: filter_empty_conv)
      with Cons.IH w more False show ?thesis
        by (auto simp: takeWhile_append)
    qed
  qed
qed

lemma last_segment:
  "\<exists>before. s = before @ last (split_str sep s)
            \<and> sep \<notin> set (last (split_str sep s))
            \<and> (before = [] \<or> last before = sep)"
proof -
  let ?P = "\<lambda>c. c \<noteq> sep"
  have "s = rev (dropWhile ?P (rev s)) @ rev (takeWhile ?P (rev s))"
    by (metis rev_append rev_rev_ident takeWhile_dropWhile_id)
  moreover have "sep \<notin> set (rev (takeWhile ?P (rev s)))"
    by (auto dest: set_takeWhileD)
  moreover have "rev (dropWhile ?P (rev s)) = [] \<or> last (rev (dropWhile ?P (rev s))) = sep"
    using hd_dropWhile [of ?P "rev s"] by (auto simp: last_rev)
  ultimately show ?thesis
    unfolding split_str_last by blast
qed

lemma trace_say [simp]: "trace (say m st) = trace st @ [Print m]"
  by (simp add: say_def)

lemma world_say [simp]: "world (say m st) = world st"
  by (simp add: say_def)

lemma commands_append [simp]: "commands (xs @ ys) = commands xs @ commands ys"
  by (induction xs rule: commands.induct) simp_all

lemma summaries_append [simp]: "summaries (xs @ ys) = summaries xs @ summaries ys"
  by (induction xs rule: summaries.induct) simp_all

lemma summaries_label [simp]:
  "verification_label name m \<Longrightarrow> summaries (Print m # evs) = summaries evs"
  by (cases m) simp_all

lemma checkout_attempts_append [simp]:
  "checkout_attempts (xs @ ys) = checkout_attempts xs @ checkout_attempts ys"
  by (simp add: checkout_attempts_def)

lemma checkout_attempts_Nil [simp]: "checkout_attempts [] = []"
  by (simp add: checkout_attempts_def)

lemma checkout_attempts_Print [simp]: "checkout_attempts (Print m # evs) = checkout_attempts evs"
  by (simp add: checkout_attempts_def)

lemma checkout_attempts_Ran [simp]:
  "checkout_attempts (Ran cwd c rc # evs) =
     (if prefix ''git checkout '' c then (c, rc) # checkout_attempts evs else checkout_attempts evs)"
  by (simp add: checkout_attempts_def)

lemma only_checkouts:
  "checkout_attempts evs = commands evs \<Longrightarrow> (c, rc) \<in> set (commands evs)
     \<Longrightarrow> prefix ''git checkout '' c"
  by (auto simp: checkout_attempts_def filter_id_conv)

lemma events_since_append: "trace st' = trace st @ evs \<Longrightarrow> events_since st st' = evs"
  by (simp add: events_since_def)

lemma events_since_same: "trace st' = trace st \<Longrightarrow> events_since st st' = []"
  by (simp add: events_since_def)

lemma run_command_show:
  "run_command P c cwd chk True st = (res, st') \<Longrightarrow>
     trace st' = trace st @ [Ran cwd c (returncode res), Print (CommandOutput (stdout res))]"
  by (auto simp: run_command_def Let_def split: prod.splits)

lemma run_command_capture:
  "run_command P c cwd False False st = (res, st') \<Longrightarrow>
     trace st' = trace st @ [Ran cwd c (returncode res)]"
  by (auto simp: run_command_def Let_def split: prod.splits)

lemma update_or_clone_existing:
  assumes "path_exists P repo_path (world st)"
    and "update_or_clone P url output_dir repo_name repo_path st = (cont, st')"
  shows "cont \<and> (\<exists>rc out. trace st' = trace st @
             [Print (RepoExists repo_name), Print Fetching,
              Ran repo_path ''git fetch --all --progress'' rc, Print (CommandOutput out)]
             @ (if rc \<noteq> 0 then [Print (WarnFetchFailed repo_name)] else []))"
  using assms
  by (auto simp: update_or_clone_def Let_def split: prod.splits if_splits dest!: run_command_show)

lemma update_or_clone_missing:
  assumes "\<not> path_exists P repo_path (world st)"
    and "update_or_clone P url output_dir repo_name repo_path st = (cont, st')"
  shows "\<exists>rc out. cont = (rc = 0) \<and> trace st' = trace st @
             [Print (Cloning repo_name),
              Ran output_dir (''git clone --progress '' @ url @ '' '' @ repo_name) rc,
              Print (CommandOutput out),
              Print (if rc \<noteq> 0 then ErrCloneFailed repo_name else Cloned repo_name)]"
  using assms
  by (auto simp: update_or_clone_def Let_def split: prod.splits if_splits dest!: run_command_show)

lemma fetch_tags_trace:
  assumes "fetch_tags P version repo_name repo_path st = st'"
  shows "\<exists>rc out. trace st' = trace st @
             [Print (CheckingOutTag version), Print FetchingTags,
              Ran repo_path ''git fetch --tags'' rc, Print (CommandOutput out)]
             @ (if rc \<noteq> 0 then [Print (WarnFetchTagsFailed repo_name)] else [])"
  using assms
  by (auto simp: fetch_tags_def Let_def split: prod.splits if_splits dest!: run_command_show)

lemma checkout_version_trace:
  assumes "checkout_version P version repo_name repo_path st = (ok, st')"
  shows "\<exists>evs. trace st' = trace st @ evs
     \<and> (\<exists>rc out rest. evs = Ran repo_path (''git checkout '' @ version) rc # Print (CommandOutput out) # rest)
     \<and> checkout_attempts evs = commands evs
     \<and> summaries evs = []
     \<and> map fst (commands evs) =
         take (length (commands evs)) (map (\<lambda>ref. ''git checkout '' @ ref) (label_variants version))
     \<and> (\<forall>j. Suc j < length (commands evs) \<longrightarrow> snd (commands evs ! j) \<noteq> 0)
     \<and> (snd (last (commands evs)) \<noteq> 0 \<longrightarrow> length (commands evs) = 4)
     \<and> ok = (snd (last (commands evs)) = 0)"
  using assms
  unfolding checkout_version_def Let_def label_variants_def
  by (auto split: prod.splits if_splits dest!: run_command_show simp: nth_Cons' less_Suc_eq)

lemma verify_checkout_trace:
  assumes "verify_checkout P repo_name repo_path st = st'"
  shows "\<exists>evs m. trace st' = trace st @ evs @ [Print m]
     \<and> verification_label repo_name m
     \<and> checkout_attempts evs = [] \<and> summaries evs = []
     \<and> (map fst (commands evs) = [''git describe --tags --exact-match'']
        \<or> map fst (commands evs) = [''git describe --tags --exact-match'', ''git rev-parse HEAD''])"
  using assms
  unfolding verify_checkout_def Let_def
  by (auto split: prod.splits if_splits dest!: run_command_capture)


lemma clone_and_checkout_package_cases:
  assumes run: "clone_and_checkout_package P url version output_dir i n st = (r, st')"
  obtains
    (raised) "get_repo_name_from_url P url = Inl ValueError" "r = Inl ValueError"
      "events_since st st' = []" "trace st' = trace st"
  | (clone_failed) name rc out where
      "get_repo_name_from_url P url = Inr name"
      "\<not> path_exists P (path_join output_dir name) (mkdir P output_dir (world st))"
      "rc \<noteq> 0" "r = Inr False"
      "events_since st st' =
         [Print (Header i n name url version), Print (Cloning name),
          Ran output_dir (''git clone --progress '' @ url @ '' '' @ name) rc,
          Print (CommandOutput out), Print (ErrCloneFailed name)]"
      "trace st' = trace st @ events_since st st'"
  | (resolving) name U rcf outf C V ok where
      "get_repo_name_from_url P url = Inr name" "r = Inr ok"
      "events_since st st' =
         Print (Header i n name url version) # U @
         [Print (CheckingOutTag version), Print FetchingTags,
          Ran (path_join output_dir name) ''git fetch --tags'' rcf, Print (CommandOutput outf)]
         @ (if rcf \<noteq> 0 then [Print (WarnFetchTagsFailed name)] else []) @ C @ V"
      "if path_exists P (path_join output_dir name) (mkdir P output_dir (world st))
       then \<exists>rc out. U =
              [Print (RepoExists name), Print Fetching,
               Ran (path_join output_dir name) ''git fetch --all --progress'' rc,
               Print (CommandOutput out)]
              @ (if rc \<noteq> 0 then [Print (WarnFetchFailed name)] else [])
       else \<exists>out. U =
              [Print (Cloning name),
               Ran output_dir (''git clone --progress '' @ url @ '' '' @ name) 0,
               Print (CommandOutput out), Print (Cloned name)]"
      "\<exists>rc out rest. C = Ran (path_join output_dir name) (''git checkout '' @ version) rc
                            # Print (CommandOutput out) # rest"
      "checkout_attempts C = commands C" "summaries C = []"
      "map fst (commands C) =
         take (length (commands C)) (map (\<lambda>ref. ''git checkout '' @ ref) (label_variants version))"
      "\<forall>j. Suc j < length (commands C) \<longrightarrow> snd (commands C ! j) \<noteq> 0"
      "snd (last (commands C)) \<noteq> 0 \<longrightarrow> length (commands C) = 4"
      "ok = (snd (last (commands C)) = 0)"
      "if ok then \<exists>V0 m. V = V0 @ [Print m, Print (Completed name)]
                   \<and> verification_label name m
                   \<and> checkout_attempts V0 = [] \<and> summaries V0 = []
                   \<and> (map fst (commands V0) = [''git describe --tags --exact-match'']
                      \<or> map fst (commands V0) =
                           [''git describe --tags --exact-match'', ''git rev-parse HEAD''])
       else V = []"
      "trace st' = trace st @ events_since st st'"
      "fst ` set (commands V)
         \<subseteq> {''git describe --tags --exact-match'', ''git rev-parse HEAD''}"
proof (cases "get_repo_name_from_url P url")
  case (Inl e)
  then have "e = ValueError"
    by (auto simp: get_repo_name_from_url_def Let_def split: option.splits)
  with Inl run have "r = Inl ValueError" "trace st' = trace st"
    by (auto simp: clone_and_checkout_package_def Let_def)
  with Inl \<open>e = ValueError\<close> show ?thesis
    by (intro raised) (simp_all add: events_since_same)
next
  case (Inr name)
  define repo_path where "repo_path = path_join output_dir name"
  define st1 where
    "st1 = say (Header i n name url version) (st\<lparr>world := mkdir P output_dir (world st)\<rparr>)"
  obtain cont st2 where upd: "update_or_clone P url output_dir name repo_path st1 = (cont, st2)"
    by fastforce
  have t1: "trace st1 = trace st @ [Print (Header i n name url version)]"
    and w1: "world st1 = mkdir P output_dir (world st)"
    by (simp_all add: st1_def)
  show ?thesis
  proof (cases cont)
    case False
    with upd have nex: "\<not> path_exists P repo_path (world st1)"
      using update_or_clone_existing by blast
    from update_or_clone_missing [OF nex upd] False obtain rc out where
      rc: "rc \<noteq> 0" and t2: "trace st2 = trace st1 @
             [Print (Cloning name),
              Ran output_dir (''git clone --progress '' @ url @ '' '' @ name) rc,
              Print (CommandOutput out), Print (ErrCloneFailed name)]"
      by auto
    from run Inr upd False have res: "r = Inr False" "st' = st2"
      by (auto simp: clone_and_checkout_package_def Let_def repo_path_def st1_def)
    have tr: "trace st' = trace st @
         [Print (Header i n name url version), Print (Cloning name),
          Ran output_dir (''git clone --progress '' @ url @ '' '' @ name) rc,
          Print (CommandOutput out), Print (ErrCloneFailed name)]"
      using res(2) t1 t2 by simp
    then have ext: "trace st' = trace st @ events_since st st'"
      by (simp add: events_since_def)
    from tr have ev: "events_since st st' =
         [Print (Header i n name url version), Print (Cloning name),
          Ran output_dir (''git clone --progress '' @ url @ '' '' @ name) rc,
          Print (CommandOutput out), Print (ErrCloneFailed name)]"
      by (rule events_since_append)
    show ?thesis
      using Inr nex rc res(1) ev ext
      unfolding repo_path_def w1
      by (rule clone_failed)
  next
    case True
    define st3 where "st3 = fetch_tags P version name repo_path st2"
    obtain ok st4 where co: "checkout_version P version name repo_path st3 = (ok, st4)"
      by fastforce
    define st5 where "st5 = verify_checkout P name repo_path st4"
    from run Inr upd True co have res: "r = Inr ok"
      "st' = (if ok then say (Completed name) st5 else st4)"
      by (auto simp: clone_and_checkout_package_def Let_def repo_path_def st1_def st3_def st5_def
            split: if_splits)
    obtain U where U: "trace st2 = trace st1 @ U"
      "if path_exists P repo_path (world st1)
       then \<exists>rc out. U =
              [Print (RepoExists name), Print Fetching,
               Ran repo_path ''git fetch --all --progress'' rc, Print (CommandOutput out)]
              @ (if rc \<noteq> 0 then [Print (WarnFetchFailed name)] else [])
       else \<exists>out. U =
              [Print (Cloning name),
               Ran output_dir (''git clone --progress '' @ url @ '' '' @ name) 0,
               Print (CommandOutput out), Print (Cloned name)]"
    proof (cases "path_exists P repo_path (world st1)")
      case ex: True
      from update_or_clone_existing [OF ex upd] show ?thesis
        using ex by (auto intro!: that)
    next
      case nex: False
      from update_or_clone_missing [OF nex upd] True show ?thesis
        using nex by (auto intro!: that)
    qed
    from fetch_tags_trace [OF st3_def [symmetric]] obtain rcf outf where F:
      "trace st3 = trace st2 @
         [Print (CheckingOutTag version), Print FetchingTags,
          Ran repo_path ''git fetch --tags'' rcf, Print (CommandOutput outf)]
         @ (if rcf \<noteq> 0 then [Print (WarnFetchTagsFailed name)] else [])"
      by blast
    from checkout_version_trace [OF co] obtain C where C:
      "trace st4 = trace st3 @ C"
      "\<exists>rc out rest. C = Ran repo_path (''git checkout '' @ version) rc
                            # Print (CommandOutput out) # rest"
      "checkout_attempts C = commands C" "summaries C = []"
      "map fst (commands C) =
         take (length (commands C)) (map (\<lambda>ref. ''git checkout '' @ ref) (label_variants version))"
      "\<forall>j. Suc j < length (commands C) \<longrightarrow> snd (commands C ! j) \<noteq> 0"
      "snd (last (commands C)) \<noteq> 0 \<longrightarrow> length (commands C) = 4"
      "ok = (snd (last (commands C)) = 0)"
      by blast
    from verify_checkout_trace [OF st5_def [symmetric]] obtain V0 m where V:
      "trace st5 = trace st4 @ V0 @ [Print m]" "verification_label name m"
      "checkout_attempts V0 = []" "summaries V0 = []"
      "map fst (commands V0) = [''git describe --tags --exact-match'']
        \<or> map fst (commands V0) = [''git describe --tags --exact-match'', ''git rev-parse HEAD'']"
      by (elim exE conjE) (rule that; assumption)
    define V' where "V' = (if ok then V0 @ [Print m, Print (Completed name)] else [])"
    have tr: "trace st' = trace st @
         (Print (Header i n name url version) # U @
         [Print (CheckingOutTag version), Print FetchingTags,
          Ran repo_path ''git fetch --tags'' rcf, Print (CommandOutput outf)]
         @ (if rcf \<noteq> 0 then [Print (WarnFetchTagsFailed name)] else []) @ C @ V')"
      using res t1 U(1) F C(1) V(1) by (simp add: V'_def)
    then have ext: "trace st' = trace st @ events_since st st'"
      by (simp add: events_since_def)
    from tr have ev: "events_since st st' =
         Print (Header i n name url version) # U @
         [Print (CheckingOutTag version), Print FetchingTags,
          Ran repo_path ''git fetch --tags'' rcf, Print (CommandOutput outf)]
         @ (if rcf \<noteq> 0 then [Print (WarnFetchTagsFailed name)] else []) @ C @ V'"
      by (rule events_since_append)
    have Vfin: "if ok then \<exists>V0 m. V' = V0 @ [Print m, Print (Completed name)]
                   \<and> verification_label name m
                   \<and> checkout_attempts V0 = [] \<and> summaries V0 = []
                   \<and> (map fst (commands V0) = [''git describe --tags --exact-match'']
                      \<or> map fst (commands V0) =
                           [''git describe --tags --exact-match'', ''git rev-parse HEAD''])
       else V' = []"
      using V by (auto simp: V'_def)
    have "set (map fst (commands V0))
            \<subseteq> {''git describe --tags --exact-match'', ''git rev-parse HEAD''}"
      using V(5) by auto
    then have Vcmds: "fst ` set (commands V')
            \<subseteq> {''git describe --tags --exact-match'', ''git rev-parse HEAD''}"
      by (simp add: V'_def)
    show ?thesis
      using Inr res(1) ev U(2) C(2-) Vfin ext Vcmds
      unfolding repo_path_def w1
      by (rule resolving)
  qed
qed

section \<open>The scenarios, evaluated\<close>

lemmas git_defs = git_platform_def git_shell_def git_done_def tag_named_def run_command_def
  say_def Let_def path_join_def

lemma git_mkdir:
  "mkdir git_platform p w = (if p \<in> set (gw_dirs w) then w else w\<lparr>gw_dirs := p # gw_dirs w\<rparr>)"
  by (simp add: git_platform_def)

lemma foo_world_trace: "trace (foo_world ds b) = []"
  by (simp add: foo_world_def)

lemma foo_name: "get_repo_name_from_url git_platform ''https://example.com/org/foo.git'' = Inr ''foo''"
  by code_simp

lemma bracket_name: "get_repo_name_from_url git_platform ''http://['' = Inl ValueError"
  by code_simp

lemma fresh_update:
  "update_or_clone git_platform ''https://example.com/org/foo.git'' ''packages'' ''foo'' ''packages/foo''
     \<lparr>world = \<lparr>gw_dirs = [''packages''], gw_tags = [''v1.2.0''], gw_head = None, gw_online = True\<rparr>,
      trace = t\<rparr>
   = (True,
      \<lparr>world = \<lparr>gw_dirs = [''packages/foo'', ''packages''], gw_tags = [''v1.2.0''], gw_head = None,
                gw_online = True\<rparr>,
       trace = t @ [Print (Cloning ''foo''),
                    Ran ''packages'' ''git clone --progress https://example.com/org/foo.git foo'' 0,
                    Print (CommandOutput []), Print (Cloned ''foo'')]\<rparr>)"
  by (simp add: update_or_clone_def git_defs)

lemma fresh_fetch_tags:
  "fetch_tags git_platform ''1.2.0'' ''foo'' ''packages/foo''
     \<lparr>world = \<lparr>gw_dirs = ds, gw_tags = [''v1.2.0''], gw_head = None, gw_online = True\<rparr>,
      trace = t\<rparr>
   = \<lparr>world = \<lparr>gw_dirs = ds, gw_tags = [''v1.2.0''], gw_head = None, gw_online = True\<rparr>,
      trace = t @ [Print (CheckingOutTag ''1.2.0''), Print FetchingTags,
                   Ran ''packages/foo'' ''git fetch --tags'' 0, Print (CommandOutput [])]\<rparr>"
  by (simp add: fetch_tags_def git_defs)

lemma foo_checkout:
  "checkout_version git_platform ''1.2.0'' ''foo'' ''packages/foo''
     \<lparr>world = \<lparr>gw_dirs = ds, gw_tags = [''v1.2.0''], gw_head = None, gw_online = b\<rparr>,
      trace = t\<rparr>
   = (True,
      \<lparr>world = \<lparr>gw_dirs = ds, gw_tags = [''v1.2.0''], gw_head = Some ''v1.2.0'', gw_online = b\<rparr>,
       trace = t @ [Ran ''packages/foo'' ''git checkout 1.2.0'' 1,
                    Print (CommandOutput ''error: pathspec did not match''),
                    Print (ErrCheckoutFailed ''1.2.0'' ''foo''), Print TryingAlternatives,
                    Ran ''packages/foo'' ''git checkout tags/1.2.0'' 1,
                    Print (CommandOutput ''error: pathspec did not match''),
                    Print (TryingVPrefix ''v1.2.0''),
                    Ran ''packages/foo'' ''git checkout v1.2.0'' 0,
                    Print (CommandOutput [])]\<rparr>)"
  by (simp add: checkout_version_def git_defs)

lemma foo_verify:
  "verify_checkout git_platform ''foo'' ''packages/foo''
     \<lparr>world = \<lparr>gw_dirs = ds, gw_tags = [''v1.2.0''], gw_head = Some ''v1.2.0'', gw_online = b\<rparr>,
      trace = t\<rparr>
   = \<lparr>world = \<lparr>gw_dirs = ds, gw_tags = [''v1.2.0''], gw_head = Some ''v1.2.0'', gw_online = b\<rparr>,
      trace = t @ [Ran ''packages/foo'' ''git describe --tags --exact-match'' 0,
                   Print (CheckedOutTag ''v1.2.0'')]\<rparr>"
  by (simp add: verify_checkout_def git_defs strip_def strip_chars_def lstrip_chars_def whitespace_def)


lemma offline_update:
  "update_or_clone git_platform ''https://example.com/org/foo.git'' ''packages'' ''foo'' ''packages/foo''
     \<lparr>world = \<lparr>gw_dirs = [''packages'', ''packages/foo''], gw_tags = [''v1.2.0''], gw_head = None,
               gw_online = False\<rparr>,
      trace = t\<rparr>
   = (True,
      \<lparr>world = \<lparr>gw_dirs = [''packages'', ''packages/foo''], gw_tags = [''v1.2.0''], gw_head = None,
                gw_online = False\<rparr>,
       trace = t @ [Print (RepoExists ''foo''), Print Fetching,
                    Ran ''packages/foo'' ''git fetch --all --progress'' 128,
                    Print (CommandOutput ''fatal: unable to access''),
                    Print (WarnFetchFailed ''foo'')]\<rparr>)"
  by (simp add: update_or_clone_def git_defs)

lemma offline_fetch_tags:
  "fetch_tags git_platform ''1.2.0'' ''foo'' ''packages/foo''
     \<lparr>world = \<lparr>gw_dirs = ds, gw_tags = [''v1.2.0''], gw_head = None, gw_online = False\<rparr>,
      trace = t\<rparr>
   = \<lparr>world = \<lparr>gw_dirs = ds, gw_tags = [''v1.2.0''], gw_head = None, gw_online = False\<rparr>,
      trace = t @ [Print (CheckingOutTag ''1.2.0''), Print FetchingTags,
                   Ran ''packages/foo'' ''git fetch --tags'' 128,
                   Print (CommandOutput ''fatal: unable to access''),
                   Print (WarnFetchTagsFailed ''foo'')]\<rparr>"
  by (simp add: fetch_tags_def git_defs)

lemma fresh_package:
  "clone_and_checkout_package git_platform ''https://example.com/org/foo.git'' ''1.2.0'' ''packages''
     i n \<lparr>world = \<lparr>gw_dirs = [], gw_tags = [''v1.2.0''], gw_head = None, gw_online = True\<rparr>,
          trace = t\<rparr>
   = (Inr True,
      \<lparr>world = \<lparr>gw_dirs = [''packages/foo'', ''packages''], gw_tags = [''v1.2.0''],
                gw_head = Some ''v1.2.0'', gw_online = True\<rparr>,
       trace = t @ [Print (Header i n ''foo'' ''https://example.com/org/foo.git'' ''1.2.0''),
                    Print (Cloning ''foo''),
                    Ran ''packages'' ''git clone --progress https://example.com/org/foo.git foo'' 0,
                    Print (CommandOutput []), Print (Cloned ''foo''),
                    Print (CheckingOutTag ''1.2.0''), Print FetchingTags,
                    Ran ''packages/foo'' ''git fetch --tags'' 0, Print (CommandOutput []),
                    Ran ''packages/foo'' ''git checkout 1.2.0'' 1,
                    Print (CommandOutput ''error: pathspec did not match''),
                    Print (ErrCheckoutFailed ''1.2.0'' ''foo''), Print TryingAlternatives,
                    Ran ''packages/foo'' ''git checkout tags/1.2.0'' 1,
                    Print (CommandOutput ''error: pathspec did not match''),
                    Print (TryingVPrefix ''v1.2.0''),
                    Ran ''packages/foo'' ''git checkout v1.2.0'' 0,
                    Print (CommandOutput []),
                    Ran ''packages/foo'' ''git describe --tags --exact-match'' 0,
                    Print (CheckedOutTag ''v1.2.0''), Print (Completed ''foo'')]\<rparr>)"
  by (simp add: clone_and_checkout_package_def Let_def foo_name path_join_def say_def git_mkdir
        fresh_update fresh_fetch_tags foo_checkout foo_verify)


lemma offline_package:
  "clone_and_checkout_package git_platform ''https://example.com/org/foo.git'' ''1.2.0'' ''packages''
     i n \<lparr>world = \<lparr>gw_dirs = [''packages/foo''], gw_tags = [''v1.2.0''], gw_head = None,
                    gw_online = False\<rparr>,
          trace = t\<rparr>
   = (Inr True,
      \<lparr>world = \<lparr>gw_dirs = [''packages'', ''packages/foo''], gw_tags = [''v1.2.0''],
                gw_head = Some ''v1.2.0'', gw_online = False\<rparr>,
       trace = t @ [Print (Header i n ''foo'' ''https://example.com/org/foo.git'' ''1.2.0''),
                    Print (RepoExists ''foo''), Print Fetching,
                    Ran ''packages/foo'' ''git fetch --all --progress'' 128,
                    Print (CommandOutput ''fatal: unable to access''),
                    Print (WarnFetchFailed ''foo''),
                    Print (CheckingOutTag ''1.2.0''), Print FetchingTags,
                    Ran ''packages/foo'' ''git fetch --tags'' 128,
                    Print (CommandOutput ''fatal: unable to access''),
                    Print (WarnFetchTagsFailed ''foo''),
                    Ran ''packages/foo'' ''git checkout 1.2.0'' 1,
                    Print (CommandOutput ''error: pathspec did not match''),
                    Print (ErrCheckoutFailed ''1.2.0'' ''foo''), Print TryingAlternatives,
                    Ran ''packages/foo'' ''git checkout tags/1.2.0'' 1,
                    Print (CommandOutput ''error: pathspec did not match''),
                    Print (TryingVPrefix ''v1.2.0''),
                    Ran ''packages/foo'' ''git checkout v1.2.0'' 0,
                    Print (CommandOutput []),
                    Ran ''packages/foo'' ''git describe --tags --exact-match'' 0,
                    Print (CheckedOutTag ''v1.2.0''), Print (Completed ''foo'')]\<rparr>)"
  by (simp add: clone_and_checkout_package_def Let_def foo_name path_join_def say_def git_mkdir
        offline_update offline_fetch_tags foo_checkout foo_verify)

lemma fresh_main:
  "main git_platform foo_manifest (foo_world [] True)
   = (Inr (),
      \<lparr>world = \<lparr>gw_dirs = [''packages/foo'', ''packages''], gw_tags = [''v1.2.0''],
                gw_head = Some ''v1.2.0'', gw_online = True\<rparr>,
       trace = [Print (Found 1),
                Print (Header 1 1 ''foo'' ''https://example.com/org/foo.git'' ''1.2.0''),
                Print (Cloning ''foo''),
                Ran ''packages'' ''git clone --progress https://example.com/org/foo.git foo'' 0,
                Print (CommandOutput []), Print (Cloned ''foo''),
                Print (CheckingOutTag ''1.2.0''), Print FetchingTags,
                Ran ''packages/foo'' ''git fetch --tags'' 0, Print (CommandOutput []),
                Ran ''packages/foo'' ''git checkout 1.2.0'' 1,
                Print (CommandOutput ''error: pathspec did not match''),
                Print (ErrCheckoutFailed ''1.2.0'' ''foo''), Print TryingAlternatives,
                Ran ''packages/foo'' ''git checkout tags/1.2.0'' 1,
                Print (CommandOutput ''error: pathspec did not match''),
                Print (TryingVPrefix ''v1.2.0''),
                Ran ''packages/foo'' ''git checkout v1.2.0'' 0,
                Print (CommandOutput []),
                Ran ''packages/foo'' ''git describe --tags --exact-match'' 0,
                Print (CheckedOutTag ''v1.2.0''), Print (Completed ''foo''),
                Print (Summary 1 1 0), Print AllSucceeded]\<rparr>)"
  by (simp add: main_def foo_manifest_def foo_world_def say_def Let_def fresh_package)


lemma offline_main:
  "main git_platform foo_manifest (foo_world [''packages/foo''] False)
   = (Inr (),
      \<lparr>world = \<lparr>gw_dirs = [''packages'', ''packages/foo''], gw_tags = [''v1.2.0''],
                gw_head = Some ''v1.2.0'', gw_online = False\<rparr>,
       trace = [Print (Found 1),
                Print (Header 1 1 ''foo'' ''https://example.com/org/foo.git'' ''1.2.0''),
                Print (RepoExists ''foo''), Print Fetching,
                Ran ''packages/foo'' ''git fetch --all --progress'' 128,
                Print (CommandOutput ''fatal: unable to access''),
                Print (WarnFetchFailed ''foo''),
                Print (CheckingOutTag ''1.2.0''), Print FetchingTags,
                Ran ''packages/foo'' ''git fetch --tags'' 128,
                Print (CommandOutput ''fatal: unable to access''),
                Print (WarnFetchTagsFailed ''foo''),
                Ran ''packages/foo'' ''git checkout 1.2.0'' 1,
                Print (CommandOutput ''error: pathspec did not match''),
                Print (ErrCheckoutFailed ''1.2.0'' ''foo''), Print TryingAlternatives,
                Ran ''packages/foo'' ''git checkout tags/1.2.0'' 1,
                Print (CommandOutput ''error: pathspec did not match''),
                Print (TryingVPrefix ''v1.2.0''),
                Ran ''packages/foo'' ''git checkout v1.2.0'' 0,
                Print (CommandOutput []),
                Ran ''packages/foo'' ''git describe --tags --exact-match'' 0,
                Print (CheckedOutTag ''v1.2.0''), Print (Completed ''foo''),
                Print (Summary 1 1 0), Print AllSucceeded]\<rparr>)"
  by (simp add: main_def foo_manifest_def foo_world_def say_def Let_def offline_package)

lemma git_checkout_succeeds_iff:
  "returncode (fst (git_shell cwd (''git checkout '' @ ref) w)) = 0
     \<longleftrightarrow> ref \<in> set (gw_tags w) \<or> (\<exists>t \<in> set (gw_tags w). ref = ''tags/'' @ t)"
  by (auto simp: git_shell_def git_done_def tag_named_def prefix_def split: option.splits)

lemma git_path_exists: "path_exists git_platform p w = (p \<in> set (gw_dirs w))"
  by (simp add: git_platform_def)

lemmas offline_package_1 = offline_package [of 1 1 "[]", folded foo_world_def]

lemma foo_path: "urlparse_path git_platform ''https://example.com/org/foo'' = Some ''/org/foo''"
  by code_simp

lemma foo_path_stripped: "strip_chars ''/'' ''/org/foo'' = ''org/foo''"
  by code_simp

section \<open>The loop of main\<close>

lemma clone_and_checkout_package_summaries:
  assumes "clone_and_checkout_package P url version output_dir i n st = (r, st')"
  shows "\<exists>evs. trace st' = trace st @ evs \<and> summaries evs = []"
  using assms
proof (cases rule: clone_and_checkout_package_cases)
  case raised
  then show ?thesis by simp
next
  case (clone_failed name rc out)
  have "summaries (events_since st st') = []"
    unfolding clone_failed(5) by simp
  with clone_failed(6) show ?thesis by blast
next
  case (resolving name U rcf outf C V ok)
  have "summaries U = []" using resolving(4) by (auto split: if_splits)
  moreover have "summaries V = []" using resolving(12) by (auto split: if_splits)
  ultimately have "summaries (events_since st st') = []"
    unfolding resolving(3) using resolving(7) by simp
  with resolving(13) show ?thesis by blast
qed

lemma clone_and_checkout_package_raises:
  assumes "clone_and_checkout_package P url version output_dir i n st = (Inl e, st')"
  shows "e = ValueError"
  using assms by (cases rule: clone_and_checkout_package_cases) simp_all

lemma process_packages_skip:
  assumes "pkg_url p = None \<or> pkg_url p = Some []"
  shows "process_packages P t i (p # rest) (s, f) st
           = process_packages P t (i + 1) rest (s, f + 1) (say (WarnNoURL i) st)"
  using assms by auto

lemma process_packages_no_versions:
  assumes "pkg_url p = Some url" "url \<noteq> []" "pkg_versions p = None \<or> pkg_versions p = Some []"
  shows "process_packages P t i (p # rest) (s, f) st
           = process_packages P t (i + 1) rest (s, f + 1) (say (WarnNoVersions i) st)"
  using assms by auto

lemma process_packages_no_version:
  assumes "pkg_url p = Some url" "url \<noteq> []" "pkg_versions p = Some (version_info # others)"
    "vi_version version_info = None \<or> vi_version version_info = Some []"
  shows "process_packages P t i (p # rest) (s, f) st
           = process_packages P t (i + 1) rest (s, f + 1) (say (WarnNoVersion i) st)"
  using assms by auto

lemma process_packages_call:
  assumes "pkg_url p = Some url" "url \<noteq> []" "pkg_versions p = Some (version_info # others)"
    "vi_version version_info = Some version" "version \<noteq> []"
  shows "process_packages P t i (p # rest) (s, f) st =
         (case clone_and_checkout_package P url version ''packages'' i t st of
            (Inl e, st1) \<Rightarrow> (Inl e, st1)
          | (Inr ok, st1) \<Rightarrow>
              if ok then process_packages P t (i + 1) rest (s + 1, f) st1
              else process_packages P t (i + 1) rest (s, f + 1) st1)"
  using assms by simp

lemma process_packages_step:
  obtains
    (counted) s1 f1 st1 evs where
      "process_packages P t i (p # rest) (s, f) st = process_packages P t (i + 1) rest (s1, f1) st1"
      "s1 = s + 1 \<and> f1 = f \<or> s1 = s \<and> f1 = f + 1"
      "trace st1 = trace st @ evs" "summaries evs = []"
  | (raised) st1 evs where
      "process_packages P t i (p # rest) (s, f) st = (Inl ValueError, st1)"
      "trace st1 = trace st @ evs" "summaries evs = []"
proof -
  consider
    (skip) m where
      "process_packages P t i (p # rest) (s, f) st
         = process_packages P t (i + 1) rest (s, f + 1) (say m st)"
      "m = WarnNoURL i \<or> m = WarnNoVersions i \<or> m = WarnNoVersion i"
  | (call) url version where
      "process_packages P t i (p # rest) (s, f) st =
         (case clone_and_checkout_package P url version ''packages'' i t st of
            (Inl e, st1) \<Rightarrow> (Inl e, st1)
          | (Inr ok, st1) \<Rightarrow>
              if ok then process_packages P t (i + 1) rest (s + 1, f) st1
              else process_packages P t (i + 1) rest (s, f + 1) st1)"
  proof (cases "pkg_url p = None \<or> pkg_url p = Some []")
    case True
    show ?thesis
      by (rule skip [OF process_packages_skip [OF True]]) simp
  next
    case no_url: False
    then obtain url where url: "pkg_url p = Some url" "url \<noteq> []"
      by auto
    show ?thesis
    proof (cases "pkg_versions p = None \<or> pkg_versions p = Some []")
      case True
      show ?thesis
        by (rule skip [OF process_packages_no_versions [OF url True]]) simp
    next
      case False
      then obtain version_info others where vs: "pkg_versions p = Some (version_info # others)"
        by (cases "pkg_versions p") (auto simp: neq_Nil_conv)
      show ?thesis
      proof (cases "vi_version version_info = None \<or> vi_version version_info = Some []")
        case True
        show ?thesis
          by (rule skip [OF process_packages_no_version [OF url vs True]]) simp
      next
        case False
        then obtain version where v: "vi_version version_info = Some version" "version \<noteq> []"
          by auto
        show ?thesis
          by (rule call [OF process_packages_call [OF url vs v]])
      qed
    qed
  qed
  then show thesis
  proof cases
    case (skip m)
    have "summaries [Print m] = []"
      using skip(2) by auto
    with skip(1) show ?thesis
      by (intro counted [of s "f + 1" "say m st" "[Print m]"]) simp_all
  next
    case (call url version)
    obtain r st1 where run: "clone_and_checkout_package P url version ''packages'' i t st = (r, st1)"
      by fastforce
    from clone_and_checkout_package_summaries [OF run] obtain evs where
      evs: "trace st1 = trace st @ evs" "summaries evs = []"
      by blast
    show ?thesis
    proof (cases r)
      case (Inl e)
      with run have "e = ValueError"
        by (simp add: clone_and_checkout_package_raises)
      with call run Inl evs show ?thesis
        by (intro raised [of st1 evs]) simp_all
    next
      case (Inr ok)
      show ?thesis
      proof (cases ok)
        case True
        with call run Inr evs show ?thesis
          by (intro counted [of "s + 1" f st1 evs]) simp_all
      next
        case False
        with call run Inr evs show ?thesis
          by (intro counted [of s "f + 1" st1 evs]) simp_all
      qed
    qed
  qed
qed

lemma process_packages_counts:
  "process_packages P t i pkgs (s, f) st = (Inr (s', f'), st')
     \<Longrightarrow> s' + f' = s + f + length pkgs"
proof (induction pkgs arbitrary: i s f st)
  case Nil
  then show ?case by simp
next
  case (Cons p rest)
  show ?case
  proof (cases rule: process_packages_step [of P t i p rest s f st])
    case (counted s1 f1 st1 evs)
    with Cons.prems have "s' + f' = s1 + f1 + length rest"
      by (intro Cons.IH [of "i + 1" s1 f1 st1]) simp
    with counted(2) show ?thesis by auto
  next
    case (raised st1 evs)
    with Cons.prems show ?thesis by simp
  qed
qed


lemma process_packages_summaries:
  "process_packages P t i pkgs (s, f) st = (r, st')
     \<Longrightarrow> \<exists>evs. trace st' = trace st @ evs \<and> summaries evs = []"
proof (induction pkgs arbitrary: i s f st)
  case Nil
  then show ?case by simp
next
  case (Cons p rest)
  show ?case
  proof (cases rule: process_packages_step [of P t i p rest s f st])
    case (counted s1 f1 st1 evs)
    with Cons.prems have "\<exists>evs. trace st' = trace st1 @ evs \<and> summaries evs = []"
      by (intro Cons.IH [of "i + 1" s1 f1 st1]) simp
    with counted(3,4) show ?thesis by auto
  next
    case (raised st1 evs)
    with Cons.prems show ?thesis by auto
  qed
qed

section \<open>The claims\<close>

text \<open>
  C1. Whatever the platform does, the checkout commands of one call of
  \<^verbatim>\<open>clone_and_checkout_package\<close> are an initial part of the four variants in the order
  \<open>label\<close>, \<^verbatim>\<open>tags/\<close>\<open>label\<close>, \<^verbatim>\<open>v\<close>\<open>label\<close>, \<^verbatim>\<open>tags/v\<close>\<open>label\<close>; every attempt but the last has
  failed, so a variant is tried only after all earlier ones failed and the first success
  ends the attempts; a failed attempt is the last one only when it is the fourth. The
  attempts are made exactly when the call reaches the checkout (it prints the
  checking-out line), that is unless the clone failed or the URL was rejected. The label
  need not be non-empty for this.
\<close>

theorem checkout_order:
  assumes "clone_and_checkout_package P url version output_dir i n st = (r, st')"
    and "a = checkout_attempts (events_since st st')"
  shows "map fst a = take (length a) (map (\<lambda>ref. ''git checkout '' @ ref) (label_variants version))
     \<and> (\<forall>j. Suc j < length a \<longrightarrow> snd (a ! j) \<noteq> 0)
     \<and> (a \<noteq> [] \<and> snd (last a) \<noteq> 0 \<longrightarrow> length a = 4)
     \<and> (a \<noteq> [] \<longleftrightarrow> Print (CheckingOutTag version) \<in> set (events_since st st'))"
  using assms(1)
proof (cases rule: clone_and_checkout_package_cases)
  case raised
  then show ?thesis using assms(2) by simp
next
  case (clone_failed name rc out)
  then show ?thesis using assms(2) by simp
next
  case (resolving name U rcf outf C V ok)
  have U: "checkout_attempts U = []" "Print (CheckingOutTag version) \<notin> set U"
    using resolving(4) by (auto split: if_splits)
  have V: "checkout_attempts V = []"
    using resolving(12) by (auto split: if_splits)
  have "a = commands C"
    using assms(2) resolving(3,6) U V by simp
  moreover have "commands C \<noteq> []"
    using resolving(5) by auto
  ultimately show ?thesis
    using resolving(3,8,9,10) by simp
qed

theorem checkout_order_witness:
  "checkout_attempts (events_since (foo_world [] True)
      (snd (clone_and_checkout_package git_platform ''https://example.com/org/foo.git'' ''1.2.0''
              ''packages'' 1 1 (foo_world [] True))))
     = [(''git checkout 1.2.0'', 1), (''git checkout tags/1.2.0'', 1), (''git checkout v1.2.0'', 0)]
   \<and> map fst [(''git checkout 1.2.0'', 1::int), (''git checkout tags/1.2.0'', 1),
               (''git checkout v1.2.0'', 0)]
       = take 3 (map (\<lambda>ref. ''git checkout '' @ ref) (label_variants ''1.2.0''))
   \<and> Print (CheckingOutTag ''1.2.0'') \<in> set (events_since (foo_world [] True)
      (snd (clone_and_checkout_package git_platform ''https://example.com/org/foo.git'' ''1.2.0''
              ''packages'' 1 1 (foo_world [] True))))"
  using checkout_order [OF fresh_package [of 1 1 "[]", folded foo_world_def] refl]
  unfolding fresh_package [of 1 1 "[]", folded foo_world_def]
  by (simp add: events_since_def foo_world_trace label_variants_def)

text \<open>
  C3. When \<^verbatim>\<open>main\<close>, run on a manifest with a non-empty package list, prints the summary,
  the total it prints is the number of entries and equals successful + failed. (Each
  iteration of the loop adds one to exactly one counter or raises: \<open>process_packages_step\<close>.)
\<close>

theorem summary_counts:
  assumes "main P (Loaded data) st = (r, st')"
    and "col_packages data = Some pkgs" and "pkgs \<noteq> []"
    and "(n, s, f) \<in> set (summaries (events_since st st'))"
  shows "n = length pkgs \<and> s + f = length pkgs"
proof -
  define st0 where "st0 = say (Found (length pkgs)) st"
  obtain lr st1 where loop: "process_packages P (length pkgs) 1 pkgs (0, 0) st0 = (lr, st1)"
    by fastforce
  from process_packages_summaries [OF loop] obtain evs where
    evs: "trace st1 = trace st0 @ evs" "summaries evs = []"
    by blast
  show ?thesis
  proof (cases lr)
    case (Inl e)
    with assms(1-3) loop have "st' = st1"
      by (simp add: main_def st0_def)
    with evs have "events_since st st' = Print (Found (length pkgs)) # evs"
      by (intro events_since_append) (simp add: st0_def)
    with evs(2) assms(4) show ?thesis by simp
  next
    case (Inr c)
    obtain s1 f1 where c: "c = (s1, f1)" by (cases c)
    from process_packages_counts [OF loop [unfolded Inr c]] have sum: "s1 + f1 = length pkgs"
      by simp
    from assms(1-3) loop Inr c have
      "trace st' = trace st1 @ [Print (Summary (length pkgs) s1 f1),
                                Print (if f1 > 0 then WarnFailed f1 else AllSucceeded)]"
      by (auto simp: main_def st0_def Let_def)
    with evs have "events_since st st' = Print (Found (length pkgs)) # evs @
         [Print (Summary (length pkgs) s1 f1), Print (if f1 > 0 then WarnFailed f1 else AllSucceeded)]"
      by (intro events_since_append) (simp add: st0_def)
    with evs(2) assms(4) sum show ?thesis by (auto split: if_splits)
  qed
qed

theorem summary_counts_witness:
  "(1, 1, 0) \<in> set (summaries (events_since (foo_world [] True)
       (snd (main git_platform foo_manifest (foo_world [] True)))))
   \<and> (1::nat) = length [\<lparr>pkg_url = Some ''https://example.com/org/foo.git'',
                         pkg_versions = Some [\<lparr>vi_version = Some ''1.2.0''\<rparr>]\<rparr>]
   \<and> (1::nat) + 0 = 1"
  using summary_counts [OF fresh_main [unfolded foo_manifest_def], of _ 1 1 0]
  by (simp add: fresh_main events_since_def foo_world_trace)

text \<open>
  C5. An entry whose url is missing or empty, whose versions list is missing or empty, or
  whose first version descriptor has no version: the loop counts it as failed and goes on
  with the next entry from a state that differs only by one printed warning; no external
  command runs and the world is untouched.
\<close>

theorem incomplete_entry_counted_failed:
  assumes "entry_incomplete p"
  shows "\<exists>m. (m = WarnNoURL i \<or> m = WarnNoVersions i \<or> m = WarnNoVersion i)
           \<and> process_packages P t i (p # rest) (s, f) st
               = process_packages P t (i + 1) rest (s, f + 1) (say m st)
           \<and> world (say m st) = world st
           \<and> commands (events_since st (say m st)) = []"
proof -
  have skip: ?thesis
    if "process_packages P t i (p # rest) (s, f) st
          = process_packages P t (i + 1) rest (s, f + 1) (say m st)"
      and "m = WarnNoURL i \<or> m = WarnNoVersions i \<or> m = WarnNoVersion i" for m
    using that by (intro exI [of _ m] conjI) (assumption | simp add: events_since_def)+
  show ?thesis
  proof (cases "pkg_url p = None \<or> pkg_url p = Some []")
    case True
    show ?thesis
      by (rule skip [OF process_packages_skip [OF True]]) simp
  next
    case False
    then obtain url where url: "pkg_url p = Some url" "url \<noteq> []"
      by auto
    show ?thesis
    proof (cases "pkg_versions p = None \<or> pkg_versions p = Some []")
      case True
      show ?thesis
        by (rule skip [OF process_packages_no_versions [OF url True]]) simp
    next
      case no_vs: False
      then obtain version_info others where vs: "pkg_versions p = Some (version_info # others)"
        by (cases "pkg_versions p") (auto simp: neq_Nil_conv)
      with assms url
      have "vi_version version_info = None \<or> vi_version version_info = Some []"
        by (simp add: entry_incomplete_def)
      then show ?thesis
        by (intro skip [OF process_packages_no_version [OF url vs]]) simp_all
    qed
  qed
qed

theorem incomplete_entry_counted_failed_witness:
  "entry_incomplete \<lparr>pkg_url = Some ''https://example.com/org/foo.git'', pkg_versions = Some []\<rparr>
   \<and> process_packages git_platform 1 1
        [\<lparr>pkg_url = Some ''https://example.com/org/foo.git'', pkg_versions = Some []\<rparr>] (0, 0)
        (foo_world [] True)
      = (Inr (0, 1), say (WarnNoVersions 1) (foo_world [] True))"
  using incomplete_entry_counted_failed
    [of "\<lparr>pkg_url = Some ''https://example.com/org/foo.git'', pkg_versions = Some []\<rparr>"
        1 git_platform 1 "[]" 0 0 "foo_world [] True"]
  by (simp add: entry_incomplete_def)






text \<open>
  C2, as amended. The scenario of the specification, with a version-control tool whose
  checkout succeeds exactly when the reference names an existing tag
  (\<open>git_checkout_succeeds_iff\<close>) and a repository whose only tag is \<^verbatim>\<open>v1.2.0\<close>: the attempts
  \<^verbatim>\<open>1.2.0\<close> and \<^verbatim>\<open>tags/1.2.0\<close> fail, the third attempt \<^verbatim>\<open>v1.2.0\<close> succeeds, there is no fourth
  attempt, and the package is counted successful (summary 1/1/0, exit status 0). This holds
  from a fresh directory with a clone that succeeds and from an existing working copy
  whose fetches fail.
\<close>

theorem foo_scenario:
  "checkout_attempts (trace (snd (main git_platform foo_manifest (foo_world [] True))))
     = [(''git checkout 1.2.0'', 1), (''git checkout tags/1.2.0'', 1), (''git checkout v1.2.0'', 0)]
   \<and> summaries (trace (snd (main git_platform foo_manifest (foo_world [] True)))) = [(1, 1, 0)]
   \<and> exit_status (fst (main git_platform foo_manifest (foo_world [] True))) = 0
   \<and> checkout_attempts (trace (snd (main git_platform foo_manifest
                                       (foo_world [''packages/foo''] False))))
     = [(''git checkout 1.2.0'', 1), (''git checkout tags/1.2.0'', 1), (''git checkout v1.2.0'', 0)]
   \<and> summaries (trace (snd (main git_platform foo_manifest (foo_world [''packages/foo''] False))))
     = [(1, 1, 0)]
   \<and> exit_status (fst (main git_platform foo_manifest (foo_world [''packages/foo''] False))) = 0"
  by (simp add: fresh_main offline_main)

text \<open>
  C2 as stated fails: it is not the case that the third attempt fails and that
  \<^verbatim>\<open>tags/v1.2.0\<close> is checked out.
\<close>

theorem foo_scenario_counterexample:
  "\<not> (snd (checkout_attempts (trace (snd (main git_platform foo_manifest (foo_world [] True)))) ! 2)
        \<noteq> 0
      \<and> (''git checkout tags/v1.2.0'', 0)
          \<in> set (checkout_attempts (trace (snd (main git_platform foo_manifest
                                                   (foo_world [] True))))))"
  by (simp add: fresh_main)

text \<open>
  C6. When the working-copy directory derived from the URL exists at the test of line 95
  (after the output directory has been made), no command of the call starts with
  \<^verbatim>\<open>git clone\<close>: the commands are the update \<^verbatim>\<open>git fetch --all --progress\<close>, then the tags-only
  fetch, then the first checkout, and no fetch after that.
\<close>

theorem existing_copy_not_cloned:
  assumes "clone_and_checkout_package P url version output_dir i n st = (r, st')"
    and "get_repo_name_from_url P url = Inr name"
    and "path_exists P (path_join output_dir name) (mkdir P output_dir (world st))"
  shows "(\<forall>(command, rc) \<in> set (commands (events_since st st')). \<not> prefix ''git clone'' command)
     \<and> (\<exists>rest. map fst (commands (events_since st st')) =
            ''git fetch --all --progress'' # ''git fetch --tags'' # (''git checkout '' @ version)
              # rest
          \<and> (\<forall>command \<in> set rest. \<not> prefix ''git fetch'' command))"
  using assms(1)
proof (cases rule: clone_and_checkout_package_cases)
  case raised
  with assms(2) show ?thesis by simp
next
  case (clone_failed name' rc out)
  with assms(2,3) show ?thesis by simp
next
  case (resolving name' U rcf outf C V ok)
  with assms(2) have [simp]: "name' = name" by simp
  from resolving(4) assms(3) obtain rc out where
    U: "U = [Print (RepoExists name), Print Fetching,
             Ran (path_join output_dir name) ''git fetch --all --progress'' rc,
             Print (CommandOutput out)]
            @ (if rc \<noteq> 0 then [Print (WarnFetchFailed name)] else [])"
    by auto
  from resolving(5) obtain rc1 where C1: "commands C \<noteq> []"
    "hd (commands C) = (''git checkout '' @ version, rc1)"
    by auto
  have C2: "\<forall>(command, rc) \<in> set (commands C). prefix ''git checkout '' command"
    using only_checkouts [OF resolving(6)] by auto
  have V: "\<forall>(command, rc) \<in> set (commands V).
             command = ''git describe --tags --exact-match'' \<or> command = ''git rev-parse HEAD''"
    using resolving(14) by fastforce
  have cmds: "commands (events_since st st') =
      (''git fetch --all --progress'', rc) # (''git fetch --tags'', rcf) # commands C @ commands V"
    unfolding resolving(3) U by simp
  have no_clone: "\<forall>(command, rc) \<in> set (commands (events_since st st')). \<not> prefix ''git clone'' command"
    unfolding cmds using C2 V by (auto simp: prefix_def)
  obtain tl_C where tl_C: "commands C = (''git checkout '' @ version, rc1) # tl_C"
    using C1 by (cases "commands C") auto
  have shape: "map fst (commands (events_since st st')) =
          ''git fetch --all --progress'' # ''git fetch --tags'' # (''git checkout '' @ version)
            # (map fst tl_C @ map fst (commands V))"
    unfolding cmds tl_C by simp
  have no_fetch: "\<forall>command \<in> set (map fst tl_C @ map fst (commands V)).
                    \<not> prefix ''git fetch'' command"
    using C2 V unfolding tl_C by (auto simp: prefix_def)
  show ?thesis
    by (intro conjI exI) (rule no_clone shape no_fetch)+
qed


theorem existing_copy_not_cloned_witness:
  "get_repo_name_from_url git_platform ''https://example.com/org/foo.git'' = Inr ''foo''
   \<and> path_exists git_platform (path_join ''packages'' ''foo'')
         (mkdir git_platform ''packages'' (world (foo_world [''packages/foo''] False)))
   \<and> map fst (commands (events_since (foo_world [''packages/foo''] False)
         (snd (clone_and_checkout_package git_platform ''https://example.com/org/foo.git'' ''1.2.0''
                 ''packages'' 1 1 (foo_world [''packages/foo''] False)))))
       = [''git fetch --all --progress'', ''git fetch --tags'', ''git checkout 1.2.0'',
          ''git checkout tags/1.2.0'', ''git checkout v1.2.0'',
          ''git describe --tags --exact-match'']"
  using existing_copy_not_cloned [OF offline_package_1 foo_name]
  unfolding offline_package_1
  by (simp add: events_since_def foo_world_trace foo_name git_path_exists git_mkdir path_join_def
        foo_world_def)

text \<open>
  C7. When the update \<^verbatim>\<open>git fetch --all --progress\<close> of an existing working copy fails, the
  call prints the warning and nothing else about it, and goes on to the checkout: the
  events start with the header, the two update lines, the failed fetch with its output,
  the warning and the checking-out line. Checkouts are attempted, and the value returned
  is whether the last attempt succeeded; the failed fetch plays no part in it.
\<close>

theorem fetch_failure_is_warning:
  assumes "clone_and_checkout_package P url version output_dir i n st = (r, st')"
    and "(''git fetch --all --progress'', rc) \<in> set (commands (events_since st st'))"
    and "rc \<noteq> 0"
  shows "\<exists>name out rest.
           get_repo_name_from_url P url = Inr name
         \<and> events_since st st' =
             [Print (Header i n name url version), Print (RepoExists name), Print Fetching,
              Ran (path_join output_dir name) ''git fetch --all --progress'' rc,
              Print (CommandOutput out), Print (WarnFetchFailed name),
              Print (CheckingOutTag version)] @ rest
         \<and> checkout_attempts rest \<noteq> []
         \<and> checkout_attempts rest = checkout_attempts (events_since st st')
         \<and> r = Inr (snd (last (checkout_attempts rest)) = 0)"
  using assms(1)
proof (cases rule: clone_and_checkout_package_cases)
  case raised
  with assms(2) show ?thesis by simp
next
  case (clone_failed name rc' out)
  with assms(2) show ?thesis by simp
next
  case (resolving name U rcf outf C V ok)
  have C: "(''git fetch --all --progress'', rc) \<notin> set (commands C)"
    using only_checkouts [OF resolving(6), of "''git fetch --all --progress''" rc] by auto
  have V: "(''git fetch --all --progress'', rc) \<notin> set (commands V)"
    using resolving(14) by (auto simp: image_subset_iff)
  have "(''git fetch --all --progress'', rc) \<in> set (commands U)"
    using assms(2) C V unfolding resolving(3) by (auto split: if_splits)
  with resolving(4) assms(3) obtain out where
    U: "U = [Print (RepoExists name), Print Fetching,
             Ran (path_join output_dir name) ''git fetch --all --progress'' rc,
             Print (CommandOutput out), Print (WarnFetchFailed name)]"
    by (auto split: if_splits)
  define rest where "rest =
     [Print FetchingTags,
      Ran (path_join output_dir name) ''git fetch --tags'' rcf, Print (CommandOutput outf)]
     @ (if rcf \<noteq> 0 then [Print (WarnFetchTagsFailed name)] else []) @ C @ V"
  have V': "checkout_attempts V = []"
    using resolving(12) by (auto split: if_splits)
  have ev: "events_since st st' =
             [Print (Header i n name url version), Print (RepoExists name), Print Fetching,
              Ran (path_join output_dir name) ''git fetch --all --progress'' rc,
              Print (CommandOutput out), Print (WarnFetchFailed name),
              Print (CheckingOutTag version)] @ rest"
    unfolding resolving(3) U rest_def by simp
  have att: "checkout_attempts rest = commands C"
    unfolding rest_def using resolving(6) V' by simp
  have ne: "commands C \<noteq> []"
    using resolving(5) by auto
  have all: "checkout_attempts rest = checkout_attempts (events_since st st')"
    unfolding ev by simp
  have res: "r = Inr (snd (last (checkout_attempts rest)) = 0)"
    unfolding att using resolving(2,11) by simp
  have ne': "checkout_attempts rest \<noteq> []"
    unfolding att by (rule ne)
  show ?thesis
    by (intro exI [of _ name] exI [of _ out] exI [of _ rest] conjI)
      (rule resolving(1) ev ne' all res)+
qed


theorem fetch_failure_is_warning_witness:
  "(''git fetch --all --progress'', 128) \<in> set (commands (events_since
       (foo_world [''packages/foo''] False)
       (snd (clone_and_checkout_package git_platform ''https://example.com/org/foo.git'' ''1.2.0''
               ''packages'' 1 1 (foo_world [''packages/foo''] False)))))
   \<and> (128::int) \<noteq> 0
   \<and> fst (clone_and_checkout_package git_platform ''https://example.com/org/foo.git'' ''1.2.0''
               ''packages'' 1 1 (foo_world [''packages/foo''] False)) = Inr True
   \<and> Print (WarnFetchFailed ''foo'') \<in> set (events_since
       (foo_world [''packages/foo''] False)
       (snd (clone_and_checkout_package git_platform ''https://example.com/org/foo.git'' ''1.2.0''
               ''packages'' 1 1 (foo_world [''packages/foo''] False))))"
  using fetch_failure_is_warning [OF offline_package_1, of 128]
  unfolding offline_package_1
  by (simp add: events_since_def foo_world_trace)

text \<open>
  C8. When some checkout attempt of a call succeeds, the call returns True whatever the two
  verification queries answer: after the attempts come the \<^verbatim>\<open>git describe\<close> query, the
  \<^verbatim>\<open>git rev-parse\<close> query if the first failed, one line that reports a tag, a commit or that
  the checkout could not be verified, and the line of completion. The successful attempt is
  the last command before the queries.
\<close>

theorem verification_is_cosmetic:
  assumes "clone_and_checkout_package P url version output_dir i n st = (r, st')"
    and "(command, 0) \<in> set (checkout_attempts (events_since st st'))"
  shows "r = Inr True
     \<and> (\<exists>name before V0 m.
            get_repo_name_from_url P url = Inr name
          \<and> events_since st st' = before @ V0 @ [Print m, Print (Completed name)]
          \<and> verification_label name m
          \<and> last (commands before) = (command, 0)
          \<and> (map fst (commands V0) = [''git describe --tags --exact-match'']
              \<or> map fst (commands V0) =
                   [''git describe --tags --exact-match'', ''git rev-parse HEAD'']))"
  using assms(1)
proof (cases rule: clone_and_checkout_package_cases)
  case raised
  with assms(2) show ?thesis by simp
next
  case (clone_failed name rc out)
  with assms(2) show ?thesis by simp
next
  case (resolving name U rcf outf C V ok)
  have U: "checkout_attempts U = []"
    using resolving(4) by (auto split: if_splits)
  have V: "checkout_attempts V = []"
    using resolving(12) by (auto split: if_splits)
  have att: "checkout_attempts (events_since st st') = commands C"
    unfolding resolving(3) using resolving(6) U V by simp
  with assms(2) have mem: "(command, 0) \<in> set (commands C)"
    by simp
  then obtain j where j: "j < length (commands C)" "commands C ! j = (command, 0)"
    by (auto simp: in_set_conv_nth)
  with resolving(9) have "\<not> Suc j < length (commands C)"
    by auto
  with j have last: "last (commands C) = (command, 0)"
    by (cases "commands C" rule: rev_cases) (auto simp: nth_append less_Suc_eq)
  with resolving(11) have ok: ok by simp
  with resolving(12) obtain V0 m where V0:
    "V = V0 @ [Print m, Print (Completed name)]" "verification_label name m"
    "map fst (commands V0) = [''git describe --tags --exact-match'']
       \<or> map fst (commands V0) = [''git describe --tags --exact-match'', ''git rev-parse HEAD'']"
    by auto
  define before where "before =
     Print (Header i n name url version) # U @
     [Print (CheckingOutTag version), Print FetchingTags,
      Ran (path_join output_dir name) ''git fetch --tags'' rcf, Print (CommandOutput outf)]
     @ (if rcf \<noteq> 0 then [Print (WarnFetchTagsFailed name)] else []) @ C"
  have ev: "events_since st st' = before @ V0 @ [Print m, Print (Completed name)]"
    unfolding resolving(3) before_def V0(1) by simp
  have "commands C \<noteq> []" using mem by auto
  then have "last (commands before) = last (commands C)"
    unfolding before_def by simp
  with last have lb: "last (commands before) = (command, 0)"
    by simp
  have res: "r = Inr True"
    using resolving(2) ok by simp
  show ?thesis
    by (intro conjI exI [of _ name] exI [of _ before] exI [of _ V0] exI [of _ m])
      (rule res resolving(1) ev V0(2) lb V0(3))+
qed

theorem verification_is_cosmetic_witness:
  "(''git checkout v1.2.0'', 0) \<in> set (checkout_attempts (events_since (foo_world [] True)
      (snd (clone_and_checkout_package git_platform ''https://example.com/org/foo.git'' ''1.2.0''
              ''packages'' 1 1 (foo_world [] True)))))
   \<and> fst (clone_and_checkout_package git_platform ''https://example.com/org/foo.git'' ''1.2.0''
              ''packages'' 1 1 (foo_world [] True)) = Inr True"
  using verification_is_cosmetic [OF fresh_package [of 1 1 "[]", folded foo_world_def],
      of "''git checkout v1.2.0''"]
  unfolding fresh_package [of 1 1 "[]", folded foo_world_def]
  by (simp add: events_since_def foo_world_trace)

text \<open>
  C10, as amended. Splitting on \<^verbatim>\<open>/\<close> never gives an empty list, so the fallback
  \<^verbatim>\<open>"unknown"\<close> is never taken. Where \<^verbatim>\<open>urlparse\<close> accepts the URL (with one trailing \<^verbatim>\<open>.git\<close>
  removed), \<^verbatim>\<open>get_repo_name_from_url\<close> returns the last segment of the path stripped of
  slashes: what follows its last slash, the empty string for an empty path. Where
  \<^verbatim>\<open>urlparse\<close> raises \<^verbatim>\<open>ValueError\<close>, so does the function.
\<close>

theorem repo_name_is_last_segment:
  "split_str CHR ''/'' s \<noteq> []
   \<and> (case urlparse_path P (if endswith url ''.git'' then take (length url - 4) url else url) of
        None \<Rightarrow> get_repo_name_from_url P url = Inl ValueError
      | Some path \<Rightarrow>
          get_repo_name_from_url P url = Inr (last (split_str CHR ''/'' (strip_chars ''/'' path)))
          \<and> (\<exists>before name.
                get_repo_name_from_url P url = Inr name
              \<and> strip_chars ''/'' path = before @ name
              \<and> CHR ''/'' \<notin> set name
              \<and> (before = [] \<or> last before = CHR ''/'')))"
proof -
  have "\<exists>before name. Inr (last (split_str CHR ''/'' p)) = (Inr name :: exn + string)
          \<and> p = before @ name \<and> CHR ''/'' \<notin> set name \<and> (before = [] \<or> last before = CHR ''/'')"
    for p
    using last_segment [of p "CHR ''/''"] by auto
  then show ?thesis
    by (simp add: get_repo_name_from_url_def Let_def split_str_nonempty split: option.splits)
qed

theorem repo_name_is_last_segment_witness:
  "urlparse_path git_platform ''https://example.com/org/foo'' = Some ''/org/foo''
   \<and> get_repo_name_from_url git_platform ''https://example.com/org/foo.git'' = Inr ''foo''
   \<and> strip_chars ''/'' ''/org/foo'' = ''org/'' @ ''foo''"
  using repo_name_is_last_segment [of _ git_platform "''https://example.com/org/foo.git''"]
  by (simp add: foo_name foo_path foo_path_stripped)

text \<open>
  C10 as stated fails: the function is not total. For \<^verbatim>\<open>http://[\<close> the parser raises
  \<^verbatim>\<open>ValueError\<close> (a bracket of the network location has no partner), and no name is
  returned.
\<close>

theorem repo_name_counterexample:
  "\<not> (\<exists>name. get_repo_name_from_url git_platform ''http://['' = Inr name)"
  by (simp add: bracket_name)



end
